theory Spec2Isabelle
  imports Main "HOL-Library.Sublist"
begin

section \<open>ThirdEye front end: data model\<close>

text \<open>
  The development follows \<^verbatim>\<open>src/src/App.tsx\<close>. The component \<^verbatim>\<open>AppContent\<close> keeps
  its data in React state cells and two refs; here they are the fields of one record
  that every handler takes and returns. What a handler does to the outside world (the
  microphone, the three remote calls, toasts, the speech synthesiser) is returned as a
  list of events, oldest first; what the outside world answers is a parameter.
\<close>

text \<open>\<^verbatim>\<open>interface ImageMetadata\<close>; the field \<^verbatim>\<open>id\<close> is named \<open>image_id\<close> here.\<close>

record ImageMetadata =
  image_id :: int
  shot_at_when :: string
  shot_at_where :: string
  people_involved :: "string list"
  image_description :: string
  image_path :: string

subsection \<open>Gallery: duplicates, paths, cursor arithmetic\<close>

text \<open>
  \<^verbatim>\<open>uniqueImages\<close> (App.tsx 55-63): a filter over \<^verbatim>\<open>images\<close> with a \<^verbatim>\<open>Set\<close> of the
  paths met so far. The set is the first argument of the loop.
\<close>

primrec uniqueImages_loop :: "string set \<Rightarrow> ImageMetadata list \<Rightarrow> ImageMetadata list" where
  "uniqueImages_loop seen [] = []"
| "uniqueImages_loop seen (img # rest) =
     (if image_path img \<in> seen then uniqueImages_loop seen rest
      else img # uniqueImages_loop (insert (image_path img) seen) rest)"

definition uniqueImages :: "ImageMetadata list \<Rightarrow> ImageMetadata list" where
  "uniqueImages imgs = uniqueImages_loop {} imgs"

text \<open>\<^verbatim>\<open>String.prototype.startsWith\<close> with one argument.\<close>

primrec startsWith :: "string \<Rightarrow> string \<Rightarrow> bool" where
  "startsWith str [] = True"
| "startsWith str (c # cs) =
     (case str of [] \<Rightarrow> False | d # ds \<Rightarrow> d = c \<and> startsWith ds cs)"

text \<open>\<^verbatim>\<open>getImagePath\<close> (App.tsx 66-77).\<close>

definition getImagePath :: "string \<Rightarrow> string" where
  "getImagePath imagePath =
     (if startsWith imagePath ''/images/'' then imagePath else ''/images/'' @ imagePath)"

text \<open>
  The remainder operator \<^verbatim>\<open>%\<close> of JavaScript on integers: the result takes the sign
  of the dividend, and a zero divisor gives \<^verbatim>\<open>NaN\<close>, which is \<open>None\<close> here.
\<close>

definition js_rem :: "int \<Rightarrow> int \<Rightarrow> int option" where
  "js_rem a b = (if b = 0 then None else Some (sgn a * (\<bar>a\<bar> mod \<bar>b\<bar>)))"

text \<open>
  The arrow functions of the two carousel buttons (App.tsx 606-610 and 623-627), as
  functions of the deduplicated count and the previous index.
\<close>

definition prevButton_update :: "nat \<Rightarrow> int \<Rightarrow> int option" where
  "prevButton_update n prev = js_rem (prev - 1 + int n) (int n)"

definition nextButton_update :: "nat \<Rightarrow> int \<Rightarrow> int option" where
  "nextButton_update n prev = js_rem (prev + 1) (int n)"

section \<open>Component state and the outside world\<close>

text \<open>
  A \<^verbatim>\<open>Blob\<close> is its bytes and its MIME type. \<^verbatim>\<open>mediaRecorderRef.current\<close> is \<open>None\<close>
  for \<^verbatim>\<open>null\<close>; of a recorder, the handlers read its MIME type only.
\<close>

record Blob =
  blob_bytes :: "nat list"
  blob_type :: string

record MediaRecorder =
  mimeType :: string

record AppState =
  isListening :: bool
  isProcessing :: bool
  transcript :: string
  response :: string
  images :: "ImageMetadata list"
  currentImageIndex :: int
  imageLoadError :: "string option"
  mediaRecorderRef :: "MediaRecorder option"
  chunksRef :: "Blob list"

text \<open>The initial values of the \<^verbatim>\<open>useState\<close> and \<^verbatim>\<open>useRef\<close> calls (App.tsx 36-44).\<close>

definition initialState :: AppState where
  "initialState =
     \<lparr>isListening = False, isProcessing = False, transcript = [], response = [],
      images = [], currentImageIndex = 0, imageLoadError = None,
      mediaRecorderRef = None, chunksRef = []\<rparr>"

datatype toast_status = StatusError | StatusWarning

record ToastOptions =
  title :: string
  description :: string
  status :: toast_status
  duration :: nat
  isClosable :: bool

text \<open>
  The calls that leave the component. \<open>TranscriptionsCreate\<close>, \<open>Fetch\<close> and
  \<open>SpeechCreate\<close> are the three remote calls (Whisper, \<^verbatim>\<open>POST /api\<close>, TTS), each with
  what it sends; \<open>Fetch q\<close> posts the body \<^verbatim>\<open>{query: q}\<close>.
\<close>

datatype event =
    GetUserMedia
  | RecorderStart nat
  | RecorderStop
  | TracksStop
  | TranscriptionsCreate Blob
  | Fetch string
  | SpeechCreate string
  | AudioPlay
  | SpeechSynthesisCancel
  | SpeechSynthesisSpeak string
  | Toast ToastOptions

primrec is_network_call :: "event \<Rightarrow> bool" where
  "is_network_call GetUserMedia = False"
| "is_network_call (RecorderStart t) = False"
| "is_network_call RecorderStop = False"
| "is_network_call TracksStop = False"
| "is_network_call (TranscriptionsCreate b) = True"
| "is_network_call (Fetch q) = True"
| "is_network_call (SpeechCreate t) = True"
| "is_network_call AudioPlay = False"
| "is_network_call SpeechSynthesisCancel = False"
| "is_network_call (SpeechSynthesisSpeak t) = False"
| "is_network_call (Toast t) = False"

primrec is_query_call :: "event \<Rightarrow> bool" where
  "is_query_call GetUserMedia = False"
| "is_query_call (RecorderStart t) = False"
| "is_query_call RecorderStop = False"
| "is_query_call TracksStop = False"
| "is_query_call (TranscriptionsCreate b) = False"
| "is_query_call (Fetch q) = True"
| "is_query_call (SpeechCreate t) = False"
| "is_query_call AudioPlay = False"
| "is_query_call SpeechSynthesisCancel = False"
| "is_query_call (SpeechSynthesisSpeak t) = False"
| "is_query_call (Toast t) = False"

text \<open>Speech playback: the TTS call, the audio element, the local synthesiser.\<close>

primrec is_playback :: "event \<Rightarrow> bool" where
  "is_playback GetUserMedia = False"
| "is_playback (RecorderStart t) = False"
| "is_playback RecorderStop = False"
| "is_playback TracksStop = False"
| "is_playback (TranscriptionsCreate b) = False"
| "is_playback (Fetch q) = False"
| "is_playback (SpeechCreate t) = True"
| "is_playback AudioPlay = True"
| "is_playback SpeechSynthesisCancel = True"
| "is_playback (SpeechSynthesisSpeak t) = True"
| "is_playback (Toast t) = False"

primrec toasts_of :: "event list \<Rightarrow> ToastOptions list" where
  "toasts_of [] = []"
| "toasts_of (e # es) = (case e of Toast t \<Rightarrow> t # toasts_of es | _ \<Rightarrow> toasts_of es)"

text \<open>The texts handed to \<^verbatim>\<open>window.speechSynthesis.speak\<close>.\<close>

primrec spoken_locally :: "event list \<Rightarrow> string list" where
  "spoken_locally [] = []"
| "spoken_locally (e # es) =
     (case e of SpeechSynthesisSpeak t \<Rightarrow> t # spoken_locally es | _ \<Rightarrow> spoken_locally es)"

subsection \<open>What the outside world answers\<close>

text \<open>
  \<^verbatim>\<open>startListening\<close>: \<^verbatim>\<open>getUserMedia\<close> rejects; or it gives a stream and the
  \<^verbatim>\<open>MediaRecorder\<close> constructor throws; or the recorder is built and \<^verbatim>\<open>start(100)\<close>
  throws; or recording starts. The flag is \<^verbatim>\<open>MediaRecorder.isTypeSupported('audio/mp3')\<close>.
\<close>

datatype start_outcome =
    GetUserMediaRejects
  | MediaRecorderThrows
  | StartThrows bool
  | Started bool

text \<open>
  \<^verbatim>\<open>openai.audio.transcriptions.create\<close> rejects with a message, or resolves to an
  object whose \<^verbatim>\<open>text\<close> is a string or is missing (\<open>None\<close>).
\<close>

datatype transcription_outcome =
    TranscriptionRejects string
  | TranscriptionResult "string option"

text \<open>
  The body of the query response after \<^verbatim>\<open>response.json()\<close>, read at the types of
  \<^verbatim>\<open>interface APIResponse\<close>. The handler tests two fields at run time, and the model
  keeps what those tests can tell apart: \<open>story_description\<close> is \<open>None\<close> when the
  field is absent and a string otherwise; \<open>image_metadata\<close> is \<open>None\<close> when
  \<^verbatim>\<open>Array.isArray\<close> is false of it (a missing field, or any value that is not an
  array, which the handler never reads) and the array otherwise. The test \<^verbatim>\<open>!x\<close> of a
  field that is a string or absent holds when it is absent or the empty string.
\<close>

record APIResponse =
  story_description :: "string option"
  image_metadata :: "ImageMetadata list option"

datatype json_outcome =
    JsonRejects string
  | Json APIResponse

text \<open>
  \<^verbatim>\<open>fetch('/api', ...)\<close> rejects with a message (no response), or resolves to a
  response with a status code and a body.
\<close>

datatype fetch_outcome =
    FetchRejects string
  | HttpResponse nat json_outcome

text \<open>
  \<^verbatim>\<open>speakResponse\<close>: the TTS call (or reading its blob) rejects; or the audio is
  fetched and \<^verbatim>\<open>audio.play()\<close> rejects; or it plays.
\<close>

datatype speech_outcome =
    SpeechCreateRejects
  | PlayRejects
  | Played

record stop_env =
  transcription :: transcription_outcome
  query :: fetch_outcome
  speech :: speech_outcome
  speechSynthesisAvailable :: bool

subsection \<open>Small pieces of JavaScript\<close>

text \<open>Decimal digits of a status code, for the template string of App.tsx 249.\<close>

fun string_of_nat :: "nat \<Rightarrow> string" where
  "string_of_nat n =
     (if n < 10 then [''0123456789'' ! n]
      else string_of_nat (n div 10) @ [''0123456789'' ! (n mod 10)])"

declare string_of_nat.simps [simp del]

text \<open>\<^verbatim>\<open>response.ok\<close>: the status is in the range 200-299.\<close>

definition response_ok :: "nat \<Rightarrow> bool" where
  "response_ok st = (200 \<le> st \<and> st \<le> 299)"

section \<open>The handlers\<close>

text \<open>\<^verbatim>\<open>handleImageError\<close> (App.tsx 79-90).\<close>

definition handleImageError :: "string \<Rightarrow> AppState \<Rightarrow> AppState \<times> event list" where
  "handleImageError path s =
     (let fullPath = getImagePath path in
      (s\<lparr>imageLoadError := Some (''Failed to load image: '' @ fullPath)\<rparr>,
       [Toast \<lparr>title = ''Image Load Error'',
               description = ''Could not load image at: '' @ fullPath @
                 ''. Check if the image exists and the path is correct.'',
               status = StatusWarning, duration = 5000, isClosable = True\<rparr>]))"

text \<open>
  \<^verbatim>\<open>nextImage\<close> and \<^verbatim>\<open>prevImage\<close> (App.tsx 107-113). Nothing in the component calls
  them: the buttons have arrow functions of their own, below. They take the remainder
  by \<^verbatim>\<open>images.length\<close>, the count before duplicates are removed; \<open>None\<close> is the index
  \<^verbatim>\<open>NaN\<close>.
\<close>

definition nextImage :: "AppState \<Rightarrow> int option" where
  "nextImage s = js_rem (currentImageIndex s + 1) (int (length (images s)))"

definition prevImage :: "AppState \<Rightarrow> int option" where
  "prevImage s =
     js_rem (currentImageIndex s - 1 + int (length (images s))) (int (length (images s)))"

text \<open>
  A click on the previous or next button (App.tsx 602-637). The carousel is rendered
  only when \<^verbatim>\<open>uniqueImages.length > 0\<close> (line 523), and both buttons are disabled when
  \<^verbatim>\<open>uniqueImages.length <= 1\<close>: then a click does nothing. With more than one image the
  remainder is a number, so the last case is never taken.
\<close>

definition prevButton_click :: "AppState \<Rightarrow> AppState" where
  "prevButton_click s =
     (let n = length (uniqueImages (images s)) in
      if \<not> n > 0 then s
      else if n \<le> 1 then s
      else (case prevButton_update n (currentImageIndex s) of
              Some i \<Rightarrow> s\<lparr>currentImageIndex := i\<rparr>
            | None \<Rightarrow> s))"

definition nextButton_click :: "AppState \<Rightarrow> AppState" where
  "nextButton_click s =
     (let n = length (uniqueImages (images s)) in
      if \<not> n > 0 then s
      else if n \<le> 1 then s
      else (case nextButton_update n (currentImageIndex s) of
              Some i \<Rightarrow> s\<lparr>currentImageIndex := i\<rparr>
            | None \<Rightarrow> s))"

text \<open>\<^verbatim>\<open>ondataavailable\<close> (App.tsx 140-144).\<close>

definition ondataavailable :: "Blob \<Rightarrow> AppState \<Rightarrow> AppState" where
  "ondataavailable e_data s =
     (if length (blob_bytes e_data) > 0 then s\<lparr>chunksRef := chunksRef s @ [e_data]\<rparr> else s)"

text \<open>
  \<^verbatim>\<open>startListening\<close> (App.tsx 115-171). The four resets come first, before the
  \<^verbatim>\<open>await\<close> on \<^verbatim>\<open>getUserMedia\<close>; every exception of the \<^verbatim>\<open>try\<close> block reaches the
  one \<^verbatim>\<open>catch\<close>, which shows a toast.
\<close>

definition start_error_toast :: event where
  "start_error_toast =
     Toast \<lparr>title = ''Error'',
            description = ''Failed to start recording. Please check your microphone permissions.'',
            status = StatusError, duration = 3000, isClosable = True\<rparr>"

definition new_recorder :: "bool \<Rightarrow> MediaRecorder" where
  "new_recorder mp3 = \<lparr>mimeType = (if mp3 then ''audio/mp3'' else ''audio/webm;codecs=opus'')\<rparr>"

definition startListening :: "start_outcome \<Rightarrow> AppState \<Rightarrow> AppState \<times> event list" where
  "startListening outcome s =
     (let s1 = s\<lparr>chunksRef := [], transcript := [], response := [], isProcessing := False\<rparr> in
      case outcome of
        GetUserMediaRejects \<Rightarrow> (s1, [GetUserMedia, start_error_toast])
      | MediaRecorderThrows \<Rightarrow> (s1, [GetUserMedia, start_error_toast])
      | StartThrows mp3 \<Rightarrow>
          (s1\<lparr>mediaRecorderRef := Some (new_recorder mp3)\<rparr>,
           [GetUserMedia, RecorderStart 100, start_error_toast])
      | Started mp3 \<Rightarrow>
          (s1\<lparr>mediaRecorderRef := Some (new_recorder mp3), isListening := True\<rparr>,
           [GetUserMedia, RecorderStart 100]))"

text \<open>
  \<^verbatim>\<open>speakResponse\<close> (App.tsx 298-338). It changes no state cell. The \<^verbatim>\<open>catch\<close> shows a
  warning toast and, when \<^verbatim>\<open>window.speechSynthesis\<close> exists, speaks the same text.
\<close>

definition speech_fallback :: "bool \<Rightarrow> string \<Rightarrow> event list" where
  "speech_fallback available txt =
     Toast \<lparr>title = ''Speech Error'',
            description = ''Failed to generate speech. Playing in fallback voice.'',
            status = StatusWarning, duration = 3000, isClosable = True\<rparr> #
     (if available then [SpeechSynthesisCancel, SpeechSynthesisSpeak txt] else [])"

definition speakResponse :: "speech_outcome \<Rightarrow> bool \<Rightarrow> string \<Rightarrow> event list" where
  "speakResponse outcome available txt =
     (case outcome of
        SpeechCreateRejects \<Rightarrow> SpeechCreate txt # speech_fallback available txt
      | PlayRejects \<Rightarrow> [SpeechCreate txt, AudioPlay] @ speech_fallback available txt
      | Played \<Rightarrow> [SpeechCreate txt, AudioPlay])"

text \<open>
  The inner \<^verbatim>\<open>try\<close> of \<^verbatim>\<open>stopListening\<close> (App.tsx 236-277): the query, the checks of
  the answer, the four state updates and the call of \<^verbatim>\<open>speakResponse\<close>, which is not
  awaited. Every \<^verbatim>\<open>throw\<close> reaches the inner \<^verbatim>\<open>catch\<close>, whose toast shows the message.
\<close>

definition api_error_toast :: "string \<Rightarrow> event" where
  "api_error_toast message =
     Toast \<lparr>title = ''Error'', description = message,
            status = StatusError, duration = 5000, isClosable = True\<rparr>"

definition submitQuery :: "stop_env \<Rightarrow> string \<Rightarrow> AppState \<Rightarrow> AppState \<times> event list" where
  "submitQuery env txt s =
     (case query env of
        FetchRejects message \<Rightarrow> (s, [Fetch txt, api_error_toast message])
      | HttpResponse st body \<Rightarrow>
          if \<not> response_ok st then
            (s, [Fetch txt, api_error_toast (''HTTP error! status: '' @ string_of_nat st)])
          else
            (case body of
               JsonRejects message \<Rightarrow> (s, [Fetch txt, api_error_toast message])
             | Json data \<Rightarrow>
                 (case story_description data of
                    None \<Rightarrow>
                      (s, [Fetch txt, api_error_toast ''No story description found in response''])
                  | Some story \<Rightarrow>
                      if story = [] then
                        (s, [Fetch txt,
                             api_error_toast ''No story description found in response''])
                      else
                        (case image_metadata data of
                           None \<Rightarrow>
                             (s, [Fetch txt,
                                  api_error_toast ''Invalid image metadata format in response''])
                         | Some imgs \<Rightarrow>
                             (s\<lparr>response := story, images := imgs,
                                currentImageIndex := 0, imageLoadError := None\<rparr>,
                              Fetch txt #
                              speakResponse (speech env) (speechSynthesisAvailable env) story)))))"

text \<open>
  \<^verbatim>\<open>stopListening\<close> (App.tsx 173-296). The guard of line 174 returns at once. The
  promise of lines 181-207 stops the recorder and the tracks, and rejects when the
  chunks make an empty blob. The outer \<^verbatim>\<open>catch\<close> shows the message of what was thrown;
  \<^verbatim>\<open>finally\<close> clears \<^verbatim>\<open>isProcessing\<close> and stops the tracks again.
\<close>

definition audio_error_toast :: "string \<Rightarrow> event" where
  "audio_error_toast message =
     Toast \<lparr>title = ''Error'', description = message,
            status = StatusError, duration = 3000, isClosable = True\<rparr>"

definition recorded_blob :: "MediaRecorder \<Rightarrow> Blob list \<Rightarrow> Blob" where
  "recorded_blob recorder chunks =
     \<lparr>blob_bytes = concat (map blob_bytes chunks),
      blob_type = (if mimeType recorder = [] then ''audio/webm;codecs=opus''
                   else mimeType recorder)\<rparr>"

definition stopListening :: "stop_env \<Rightarrow> AppState \<Rightarrow> AppState \<times> event list" where
  "stopListening env s =
     (case mediaRecorderRef s of
        None \<Rightarrow> (s, [])
      | Some recorder \<Rightarrow>
          if \<not> isListening s then (s, [])
          else
            (let s1 = s\<lparr>isListening := False, isProcessing := True\<rparr>;
                 audioBlob = recorded_blob recorder (chunksRef s1);
                 (s2, evs) =
                   (if length (blob_bytes audioBlob) = 0 then
                      (s1, [RecorderStop, TracksStop, audio_error_toast ''No audio data recorded''])
                    else
                      (case transcription env of
                         TranscriptionRejects message \<Rightarrow>
                           (s1, [RecorderStop, TracksStop, TranscriptionsCreate audioBlob,
                                 audio_error_toast message])
                       | TranscriptionResult None \<Rightarrow>
                           (s1, [RecorderStop, TracksStop, TranscriptionsCreate audioBlob,
                                 audio_error_toast ''No transcription received''])
                       | TranscriptionResult (Some t) \<Rightarrow>
                           if t = [] then
                             (s1, [RecorderStop, TracksStop, TranscriptionsCreate audioBlob,
                                   audio_error_toast ''No transcription received''])
                           else
                             (let (s3, qevs) = submitQuery env t (s1\<lparr>transcript := t\<rparr>) in
                              (s3, [RecorderStop, TracksStop, TranscriptionsCreate audioBlob]
                                   @ qevs))))
             in (s2\<lparr>isProcessing := False\<rparr>, evs @ [TracksStop])))"

section \<open>Notions the properties are stated with\<close>

text \<open>A session is live: line 174 of \<^verbatim>\<open>stopListening\<close> does not return.\<close>

definition recording :: "AppState \<Rightarrow> bool" where
  "recording s = (mediaRecorderRef s \<noteq> None \<and> isListening s)"

text \<open>The chunks collected so far make a blob of more than zero bytes.\<close>

definition audio_captured :: "AppState \<Rightarrow> bool" where
  "audio_captured s = (concat (map blob_bytes (chunksRef s)) \<noteq> [])"

text \<open>
  The transcription stage fails: the call rejects, or its text is missing or empty.
\<close>

definition transcription_fails :: "stop_env \<Rightarrow> bool" where
  "transcription_fails env =
     (case transcription env of
        TranscriptionRejects message \<Rightarrow> True
      | TranscriptionResult None \<Rightarrow> True
      | TranscriptionResult (Some t) \<Rightarrow> t = [])"

text \<open>
  A response body is invalid: \<open>story_description\<close> absent or empty, or
  \<open>image_metadata\<close> not an array.
\<close>

definition invalid_response :: "APIResponse \<Rightarrow> bool" where
  "invalid_response data =
     (story_description data = None \<or> story_description data = Some [] \<or>
      image_metadata data = None)"

text \<open>
  The query stage fails: no response, a status outside 200-299, a body that is not
  JSON, or an invalid body.
\<close>

definition query_fails :: "stop_env \<Rightarrow> bool" where
  "query_fails env =
     (case query env of
        FetchRejects message \<Rightarrow> True
      | HttpResponse st body \<Rightarrow>
          (if response_ok st
           then (case body of JsonRejects message \<Rightarrow> True | Json data \<Rightarrow> invalid_response data)
           else True))"

text \<open>
  The message of what the failing stage throws, which the \<^verbatim>\<open>catch\<close> puts in its toast
  (App.tsx 230, 249, 255, 259; a rejected call brings its own message).
\<close>

definition transcription_error_message :: "stop_env \<Rightarrow> string" where
  "transcription_error_message env =
     (case transcription env of
        TranscriptionRejects message \<Rightarrow> message
      | TranscriptionResult t \<Rightarrow> ''No transcription received'')"

definition query_error_message :: "stop_env \<Rightarrow> string" where
  "query_error_message env =
     (case query env of
        FetchRejects message \<Rightarrow> message
      | HttpResponse st body \<Rightarrow>
          if \<not> response_ok st then ''HTTP error! status: '' @ string_of_nat st
          else
            (case body of
               JsonRejects message \<Rightarrow> message
             | Json data \<Rightarrow>
                 (case story_description data of
                    None \<Rightarrow> ''No story description found in response''
                  | Some story \<Rightarrow>
                      if story = [] then ''No story description found in response''
                      else ''Invalid image metadata format in response'')))"

text \<open>The cursor is inside the deduplicated list, or that list is empty.\<close>

definition gallery_invariant :: "AppState \<Rightarrow> bool" where
  "gallery_invariant s =
     (uniqueImages (images s) = [] \<or>
      (0 \<le> currentImageIndex s \<and>
       currentImageIndex s < int (length (uniqueImages (images s)))))"

text \<open>What the page displays of a result: narrative, images, cursor, image error.\<close>

definition same_display :: "AppState \<Rightarrow> AppState \<Rightarrow> bool" where
  "same_display s s' =
     (response s' = response s \<and> images s' = images s \<and>
      currentImageIndex s' = currentImageIndex s \<and> imageLoadError s' = imageLoadError s)"

section \<open>Example sessions\<close>

definition example_image :: "int \<Rightarrow> string \<Rightarrow> ImageMetadata" where
  "example_image n path =
     \<lparr>image_id = n, shot_at_when = ''2024-07-04'', shot_at_where = ''Santa Cruz'',
      people_involved = [], image_description = ''beach'', image_path = path\<rparr>"

definition one_chunk :: Blob where
  "one_chunk = \<lparr>blob_bytes = [26, 69, 223, 163], blob_type = ''audio/webm;codecs=opus''\<rparr>"

text \<open>Start was pressed on a fresh page, the microphone was granted, one chunk arrived.\<close>

definition listening_state :: AppState where
  "listening_state = ondataavailable one_chunk (fst (startListening (Started False) initialState))"

text \<open>
  The answers of scenario A of the specification: the transcript, the narrative and two
  images with the paths \<^verbatim>\<open>IMG1.jpg\<close> and \<^verbatim>\<open>images/IMG1.jpg\<close>.
\<close>

definition scenario_A_response :: APIResponse where
  "scenario_A_response =
     \<lparr>story_description = Some ''Here are your beach memories'',
      image_metadata = Some [example_image 1 ''IMG1.jpg'', example_image 2 ''images/IMG1.jpg'']\<rparr>"

definition scenario_A_env :: stop_env where
  "scenario_A_env =
     \<lparr>transcription = TranscriptionResult (Some ''beach photos from July''),
      query = HttpResponse 200 (Json scenario_A_response),
      speech = Played, speechSynthesisAvailable = True\<rparr>"

text \<open>The state when the session of scenario A has ended.\<close>

definition scenario_A_state :: AppState where
  "scenario_A_state = fst (stopListening scenario_A_env listening_state)"

text \<open>The first image of scenario A failed to load.\<close>

definition scenario_A_broken_state :: AppState where
  "scenario_A_broken_state = fst (handleImageError ''IMG1.jpg'' scenario_A_state)"

text \<open>The transcription comes back with an empty text.\<close>

definition empty_transcript_env :: stop_env where
  "empty_transcript_env = scenario_A_env\<lparr>transcription := TranscriptionResult (Some [])\<rparr>"

text \<open>The backend answers 200 with a narrative and no \<^verbatim>\<open>image_metadata\<close> field.\<close>

definition missing_images_env :: stop_env where
  "missing_images_env =
     scenario_A_env\<lparr>query := HttpResponse 200
       (Json \<lparr>story_description = Some ''Here are your beach memories'',
              image_metadata = None\<rparr>)\<rparr>"

text \<open>Scenario C: the backend answers with status 500.\<close>

definition scenario_C_env :: stop_env where
  "scenario_C_env = scenario_A_env\<lparr>query := HttpResponse 500 (JsonRejects ''Unexpected token'')\<rparr>"

text \<open>Scenario D: the synthesis call throws.\<close>

definition scenario_D_env :: stop_env where
  "scenario_D_env = scenario_A_env\<lparr>speech := SpeechCreateRejects\<rparr>"

text \<open>A result with three images, two of them with the same path; the cursor on the second.\<close>

definition duplicate_state :: AppState where
  "duplicate_state =
     initialState\<lparr>images := [example_image 1 ''a.jpg'', example_image 2 ''a.jpg'',
                             example_image 3 ''b.jpg''],
                  currentImageIndex := 1\<rparr>"

section \<open>Properties of the gallery functions\<close>

lemma uniqueImages_loop_paths_fresh:
  "image_path ` set (uniqueImages_loop seen imgs) \<inter> seen = {}"
  by (induction imgs arbitrary: seen) auto

lemma uniqueImages_loop_distinct:
  "distinct (map image_path (uniqueImages_loop seen imgs))"
proof (induction imgs arbitrary: seen)
  case Nil
  show ?case by simp
next
  case (Cons img rest)
  have "image_path img \<notin> image_path ` set (uniqueImages_loop (insert (image_path img) seen) rest)"
    using uniqueImages_loop_paths_fresh [of "insert (image_path img) seen" rest] by blast
  with Cons show ?case by simp
qed

lemma uniqueImages_loop_subseq: "subseq (uniqueImages_loop seen imgs) imgs"
  by (induction imgs arbitrary: seen) auto

lemma uniqueImages_loop_paths:
  "image_path ` set (uniqueImages_loop seen imgs) = image_path ` set imgs - seen"
  by (induction imgs arbitrary: seen) auto

lemma uniqueImages_loop_first_occurrences:
  "uniqueImages_loop seen imgs =
     map (\<lambda>i. imgs ! i)
       (filter (\<lambda>i. image_path (imgs ! i) \<notin> seen \<union> image_path ` set (take i imgs))
          [0..<length imgs])"
proof (induction imgs arbitrary: seen)
  case Nil
  show ?case by simp
next
  case (Cons img rest)
  have shift: "[0..<length (img # rest)] = 0 # map Suc [0..<length rest]"
    by (simp add: upt_conv_Cons map_Suc_upt del: upt_Suc)
  show ?case
    unfolding shift
    by (auto simp add: Cons.IH filter_map comp_def simp del: upt_Suc
        intro!: arg_cong [where f = "map ((!) rest)"] filter_cong)
qed

lemma startsWith_prefix: "startsWith str pre = prefix pre str"
  by (induction pre arbitrary: str) (auto split: list.splits)


section \<open>Claims about the gallery functions\<close>

text \<open>
  C1. For every list of images, the deduplicated list has no two entries with the same
  path; it is a subsequence of the input (relative order kept); every path of the input
  is still there; and the entries kept are exactly those at the positions whose path
  does not occur at an earlier position, that is the first occurrence of each path.
\<close>

theorem uniqueImages_keeps_first_occurrences:
  "distinct (map image_path (uniqueImages imgs)) \<and>
   subseq (uniqueImages imgs) imgs \<and>
   set (map image_path (uniqueImages imgs)) = set (map image_path imgs) \<and>
   uniqueImages imgs =
     map (\<lambda>i. imgs ! i)
       (filter (\<lambda>i. image_path (imgs ! i) \<notin> image_path ` set (take i imgs))
          [0..<length imgs])"
proof -
  have "distinct (map image_path (uniqueImages imgs))"
    unfolding uniqueImages_def by (rule uniqueImages_loop_distinct)
  moreover have "subseq (uniqueImages imgs) imgs"
    unfolding uniqueImages_def by (rule uniqueImages_loop_subseq)
  moreover have "set (map image_path (uniqueImages imgs)) = set (map image_path imgs)"
    unfolding uniqueImages_def by (simp add: uniqueImages_loop_paths)
  moreover have "uniqueImages imgs =
     map (\<lambda>i. imgs ! i)
       (filter (\<lambda>i. image_path (imgs ! i) \<notin> image_path ` set (take i imgs))
          [0..<length imgs])"
    unfolding uniqueImages_def
    using uniqueImages_loop_first_occurrences [of "{}" imgs] by simp
  ultimately show ?thesis by blast
qed

text \<open>The example of the specification: paths a, b, a, c give a, b, c.\<close>

theorem uniqueImages_keeps_first_occurrences_witness:
  "distinct (map image_path (uniqueImages
     [example_image 1 ''a.jpg'', example_image 2 ''b.jpg'',
      example_image 3 ''a.jpg'', example_image 4 ''c.jpg''])) \<and>
   uniqueImages
     [example_image 1 ''a.jpg'', example_image 2 ''b.jpg'',
      example_image 3 ''a.jpg'', example_image 4 ''c.jpg''] =
     [example_image 1 ''a.jpg'', example_image 2 ''b.jpg'', example_image 4 ''c.jpg'']"
  using uniqueImages_keeps_first_occurrences
    [of "[example_image 1 ''a.jpg'', example_image 2 ''b.jpg'',
          example_image 3 ''a.jpg'', example_image 4 ''c.jpg'']"]
  by (simp add: uniqueImages_def example_image_def)

text \<open>
  C2, as the code has it. Removing duplicates compares the stored paths, and the paths
  \<^verbatim>\<open>IMG1.jpg\<close> and \<^verbatim>\<open>images/IMG1.jpg\<close> differ; \<^verbatim>\<open>getImagePath\<close> leaves a path alone only
  when it starts with \<^verbatim>\<open>/images/\<close>, so it sends them to \<^verbatim>\<open>/images/IMG1.jpg\<close> and
  \<^verbatim>\<open>/images/images/IMG1.jpg\<close>, which differ too. Two images with these paths are both
  kept: the gallery shows 2 images.
\<close>

theorem scenario_A_paths_are_not_duplicates:
  "getImagePath ''IMG1.jpg'' = ''/images/IMG1.jpg'' \<and>
   getImagePath ''images/IMG1.jpg'' = ''/images/images/IMG1.jpg'' \<and>
   uniqueImages [a\<lparr>image_path := ''IMG1.jpg''\<rparr>, b\<lparr>image_path := ''images/IMG1.jpg''\<rparr>] =
     [a\<lparr>image_path := ''IMG1.jpg''\<rparr>, b\<lparr>image_path := ''images/IMG1.jpg''\<rparr>] \<and>
   length (uniqueImages
     [a\<lparr>image_path := ''IMG1.jpg''\<rparr>, b\<lparr>image_path := ''images/IMG1.jpg''\<rparr>]) = 2"
  by (simp add: getImagePath_def uniqueImages_def)

theorem scenario_A_paths_are_not_duplicates_witness:
  "uniqueImages [example_image 1 ''IMG1.jpg'', example_image 2 ''images/IMG1.jpg''] =
     [example_image 1 ''IMG1.jpg'', example_image 2 ''images/IMG1.jpg'']"
  using scenario_A_paths_are_not_duplicates [of "example_image 1 []" "example_image 2 []"]
  by (simp add: example_image_def)

text \<open>
  C2 as stated fails: after the session of scenario A the two normalised paths differ
  and the deduplicated list does not have exactly 1 entry.
\<close>

theorem scenario_A_one_unique_image_counterexample:
  "getImagePath ''IMG1.jpg'' \<noteq> getImagePath ''images/IMG1.jpg'' \<and>
   map image_path (images scenario_A_state) = [''IMG1.jpg'', ''images/IMG1.jpg''] \<and>
   length (uniqueImages (images scenario_A_state)) \<noteq> 1"
  by (simp add: getImagePath_def uniqueImages_def scenario_A_state_def scenario_A_env_def
      scenario_A_response_def listening_state_def stopListening_def submitQuery_def
      startListening_def ondataavailable_def initialState_def one_chunk_def
      recorded_blob_def new_recorder_def response_ok_def example_image_def)

text \<open>
  C10. For every string, \<^verbatim>\<open>getImagePath\<close> returns a string that starts with
  \<^verbatim>\<open>/images/\<close>, and applying it to its own result changes nothing.
\<close>

theorem getImagePath_prefixed_idempotent:
  "startsWith (getImagePath p) ''/images/'' \<and>
   prefix ''/images/'' (getImagePath p) \<and>
   getImagePath (getImagePath p) = getImagePath p"
  by (simp add: getImagePath_def startsWith_prefix)

theorem getImagePath_prefixed_idempotent_witness:
  "getImagePath ''IMG1.jpg'' = ''/images/IMG1.jpg'' \<and>
   getImagePath (getImagePath ''IMG1.jpg'') = ''/images/IMG1.jpg''"
  using getImagePath_prefixed_idempotent [of "''IMG1.jpg''"]
  by (simp add: getImagePath_def)

section \<open>Properties of the handlers\<close>

lemma submitQuery_fails:
  assumes "query_fails env"
  shows "submitQuery env t s = (s, [Fetch t, api_error_toast (query_error_message env)])"
proof (cases "query env")
  case (FetchRejects message)
  then show ?thesis by (simp add: submitQuery_def query_error_message_def)
next
  case (HttpResponse st body)
  show ?thesis
  proof (cases "response_ok st")
    case False
    with HttpResponse show ?thesis by (simp add: submitQuery_def query_error_message_def)
  next
    case ok: True
    show ?thesis
    proof (cases body)
      case (JsonRejects message)
      with HttpResponse ok show ?thesis by (simp add: submitQuery_def query_error_message_def)
    next
      case (Json data)
      with assms HttpResponse ok have "invalid_response data"
        by (simp add: query_fails_def)
      then consider "story_description data = None" | "story_description data = Some []"
        | story where "story_description data = Some story" "story \<noteq> []" "image_metadata data = None"
        unfolding invalid_response_def by (cases "story_description data") auto
      then show ?thesis
        using HttpResponse ok Json
        by cases (simp_all add: submitQuery_def query_error_message_def)
    qed
  qed
qed

lemma not_query_fails_cases:
  assumes "\<not> query_fails env"
  obtains st data story imgs where
    "query env = HttpResponse st (Json data)" "response_ok st"
    "story_description data = Some story" "story \<noteq> []" "image_metadata data = Some imgs"
proof (cases "query env")
  case (FetchRejects message)
  with assms show ?thesis by (simp add: query_fails_def)
next
  case (HttpResponse st body)
  with assms have ok: "response_ok st" by (simp add: query_fails_def split: if_splits)
  show ?thesis
  proof (cases body)
    case (JsonRejects message)
    with assms HttpResponse ok show ?thesis by (simp add: query_fails_def)
  next
    case (Json data)
    with assms HttpResponse ok have v: "\<not> invalid_response data" by (simp add: query_fails_def)
    then obtain story imgs where "story_description data = Some story" "story \<noteq> []"
      "image_metadata data = Some imgs"
      unfolding invalid_response_def by (cases "story_description data"; cases "image_metadata data") auto
    with HttpResponse ok Json that show ?thesis by blast
  qed
qed

lemma submitQuery_valid:
  assumes "query env = HttpResponse st (Json data)" and "response_ok st"
    and "story_description data = Some story" and "story \<noteq> []"
    and "image_metadata data = Some imgs"
  shows "submitQuery env t s =
       (s\<lparr>response := story, images := imgs, currentImageIndex := 0, imageLoadError := None\<rparr>,
        Fetch t # speakResponse (speech env) (speechSynthesisAvailable env) story)"
  using assms by (simp add: submitQuery_def)

lemma recordingE:
  assumes "recording s"
  obtains recorder where "mediaRecorderRef s = Some recorder" "isListening s"
  using assms by (auto simp: recording_def)

lemma stopListening_idle:
  assumes "\<not> recording s"
  shows "stopListening env s = (s, [])"
proof (cases "mediaRecorderRef s")
  case None
  then show ?thesis by (simp add: stopListening_def)
next
  case (Some recorder)
  with assms have "\<not> isListening s" by (simp add: recording_def)
  with Some show ?thesis by (simp add: stopListening_def)
qed

lemma recorded_blob_empty:
  "(blob_bytes (recorded_blob recorder (chunksRef s)) = []) = (\<not> audio_captured s)"
  by (simp add: recorded_blob_def audio_captured_def)

lemma audio_captured_flags:
  "audio_captured (s\<lparr>isListening := a, isProcessing := b\<rparr>) = audio_captured s"
  by (simp add: audio_captured_def)

lemma stopListening_no_audio:
  assumes "recording s" and "\<not> audio_captured s"
  shows "stopListening env s =
     (s\<lparr>isListening := False, isProcessing := False\<rparr>,
      [RecorderStop, TracksStop, audio_error_toast ''No audio data recorded'', TracksStop])"
proof -
  from assms(1) obtain recorder where "mediaRecorderRef s = Some recorder" "isListening s"
    by (rule recordingE)
  with assms(2) show ?thesis
    by (simp add: stopListening_def recorded_blob_empty audio_captured_flags Let_def)
qed

lemma stopListening_transcription_fails:
  assumes "mediaRecorderRef s = Some recorder" and "isListening s" and "audio_captured s"
    and "transcription_fails env"
  shows "stopListening env s =
       (s\<lparr>isListening := False, isProcessing := False\<rparr>,
        [RecorderStop, TracksStop, TranscriptionsCreate (recorded_blob recorder (chunksRef s)),
         audio_error_toast (transcription_error_message env), TracksStop])"
proof (cases "transcription env")
  case (TranscriptionRejects message)
  with assms(1-3) show ?thesis
    by (simp add: stopListening_def recorded_blob_empty audio_captured_flags Let_def
        transcription_error_message_def)
next
  case (TranscriptionResult tx)
  with assms(4) consider "tx = None" | "tx = Some []"
    by (cases tx) (auto simp: transcription_fails_def)
  then show ?thesis
    using assms(1-3) TranscriptionResult
    by cases (simp_all add: stopListening_def recorded_blob_empty audio_captured_flags Let_def
        transcription_error_message_def)
qed

lemma not_transcription_fails_cases:
  assumes "\<not> transcription_fails env"
  obtains t where "transcription env = TranscriptionResult (Some t)" "t \<noteq> []"
proof (cases "transcription env")
  case (TranscriptionRejects message)
  with assms show ?thesis by (simp add: transcription_fails_def)
next
  case (TranscriptionResult tx)
  with assms that show ?thesis by (cases tx) (auto simp: transcription_fails_def)
qed

lemma stopListening_transcribed:
  assumes "mediaRecorderRef s = Some recorder" and "isListening s" and "audio_captured s"
    and "transcription env = TranscriptionResult (Some t)" and "t \<noteq> []"
  shows "stopListening env s =
       ((fst (submitQuery env t (s\<lparr>isListening := False, isProcessing := True, transcript := t\<rparr>)))
          \<lparr>isProcessing := False\<rparr>,
        [RecorderStop, TracksStop, TranscriptionsCreate (recorded_blob recorder (chunksRef s))] @
        snd (submitQuery env t (s\<lparr>isListening := False, isProcessing := True, transcript := t\<rparr>)) @
        [TracksStop])"
  using assms
  by (simp add: stopListening_def recorded_blob_empty audio_captured_flags Let_def split_beta)

lemma stopListening_query_fails:
  assumes "mediaRecorderRef s = Some recorder" and "isListening s" and "audio_captured s"
    and "transcription env = TranscriptionResult (Some t)" and "t \<noteq> []"
    and "query_fails env"
  shows "stopListening env s =
       (s\<lparr>isListening := False, isProcessing := False, transcript := t\<rparr>,
        [RecorderStop, TracksStop, TranscriptionsCreate (recorded_blob recorder (chunksRef s)),
         Fetch t, api_error_toast (query_error_message env), TracksStop])"
  using stopListening_transcribed [OF assms(1-5)] submitQuery_fails [OF assms(6)]
  by simp

lemma stopListening_valid:
  assumes "mediaRecorderRef s = Some recorder" and "isListening s" and "audio_captured s"
    and "transcription env = TranscriptionResult (Some t)" and "t \<noteq> []"
    and "query env = HttpResponse st (Json data)" and "response_ok st"
    and "story_description data = Some story" and "story \<noteq> []"
    and "image_metadata data = Some imgs"
  shows "stopListening env s =
       (s\<lparr>isListening := False, isProcessing := False, transcript := t, response := story,
          images := imgs, currentImageIndex := 0, imageLoadError := None\<rparr>,
        [RecorderStop, TracksStop, TranscriptionsCreate (recorded_blob recorder (chunksRef s)),
         Fetch t] @
        speakResponse (speech env) (speechSynthesisAvailable env) story @ [TracksStop])"
  using stopListening_transcribed [OF assms(1-5)] submitQuery_valid [OF assms(6-10)]
  by simp

text \<open>
  The four ways a press on Stop can go wrong before the gallery is updated. In each
  the display is as it was, the query is sent only when the transcription gave a text,
  and nothing is played.
\<close>

lemma stopListening_failure:
  assumes "\<not> recording s \<or> \<not> audio_captured s \<or> transcription_fails env \<or> query_fails env"
  shows "same_display s (fst (stopListening env s)) \<and>
     \<not> list_ex is_playback (snd (stopListening env s)) \<and>
     (\<not> recording s \<or> \<not> audio_captured s \<or> transcription_fails env) =
       (\<not> list_ex is_query_call (snd (stopListening env s))) \<and>
     (\<not> recording s \<or> \<not> audio_captured s) =
       (\<not> list_ex is_network_call (snd (stopListening env s)))"
proof (cases "recording s")
  case False
  then show ?thesis by (simp add: stopListening_idle same_display_def)
next
  case rec: True
  then obtain recorder where r: "mediaRecorderRef s = Some recorder" "isListening s"
    by (rule recordingE)
  show ?thesis
  proof (cases "audio_captured s")
    case False
    with rec show ?thesis
      by (simp add: stopListening_no_audio same_display_def audio_error_toast_def)
  next
    case aud: True
    show ?thesis
    proof (cases "transcription_fails env")
      case True
      with rec aud show ?thesis
        by (simp add: stopListening_transcription_fails [OF r aud True] same_display_def
            audio_error_toast_def)
    next
      case False
      then obtain t where t: "transcription env = TranscriptionResult (Some t)" "t \<noteq> []"
        by (rule not_transcription_fails_cases)
      from assms rec aud False have q: "query_fails env" by simp
      from rec aud False show ?thesis
        by (simp add: stopListening_query_fails [OF r aud t q] same_display_def
            api_error_toast_def)
    qed
  qed
qed


lemma startListening_display:
  "images (fst (startListening outcome s)) = images s \<and>
   currentImageIndex (fst (startListening outcome s)) = currentImageIndex s \<and>
   imageLoadError (fst (startListening outcome s)) = imageLoadError s \<and>
   transcript (fst (startListening outcome s)) = [] \<and>
   response (fst (startListening outcome s)) = []"
  by (cases outcome) (simp_all add: startListening_def Let_def)

lemma listening_state_eq:
  "listening_state =
     \<lparr>isListening = True, isProcessing = False, transcript = [], response = [],
      images = [], currentImageIndex = 0, imageLoadError = None,
      mediaRecorderRef = Some \<lparr>mimeType = ''audio/webm;codecs=opus''\<rparr>,
      chunksRef = [one_chunk]\<rparr>"
  by (simp add: listening_state_def startListening_def ondataavailable_def initialState_def
      one_chunk_def new_recorder_def)

lemma listening_state_live:
  "mediaRecorderRef listening_state = Some \<lparr>mimeType = ''audio/webm;codecs=opus''\<rparr>"
  "isListening listening_state" "recording listening_state" "audio_captured listening_state"
  by (simp_all add: listening_state_eq recording_def audio_captured_def one_chunk_def)

lemma listening_state_chunks: "chunksRef listening_state = [one_chunk]"
  by (simp add: listening_state_eq)

lemma scenario_A_state_eq:
  "scenario_A_state =
     \<lparr>isListening = False, isProcessing = False, transcript = ''beach photos from July'',
      response = ''Here are your beach memories'',
      images = [example_image 1 ''IMG1.jpg'', example_image 2 ''images/IMG1.jpg''],
      currentImageIndex = 0, imageLoadError = None,
      mediaRecorderRef = Some \<lparr>mimeType = ''audio/webm;codecs=opus''\<rparr>,
      chunksRef = [one_chunk]\<rparr>"
proof -
  have "stopListening scenario_A_env listening_state =
       (listening_state\<lparr>isListening := False, isProcessing := False,
          transcript := ''beach photos from July'', response := ''Here are your beach memories'',
          images := [example_image 1 ''IMG1.jpg'', example_image 2 ''images/IMG1.jpg''],
          currentImageIndex := 0, imageLoadError := None\<rparr>,
        [RecorderStop, TracksStop,
         TranscriptionsCreate (recorded_blob \<lparr>mimeType = ''audio/webm;codecs=opus''\<rparr>
           (chunksRef listening_state)),
         Fetch ''beach photos from July''] @
        speakResponse (speech scenario_A_env) (speechSynthesisAvailable scenario_A_env)
          ''Here are your beach memories'' @ [TracksStop])"
    by (rule stopListening_valid [where st = 200 and data = scenario_A_response])
      (simp_all add: listening_state_live scenario_A_env_def scenario_A_response_def
        response_ok_def)
  then show ?thesis
    by (simp add: scenario_A_state_def listening_state_eq)
qed

section \<open>Claims about the session\<close>

text \<open>
  C3. A press on Start clears the transcript and the narrative, and leaves the images,
  the cursor and the image error of the session before as they were. Here the session
  of scenario A has ended and its first image failed to load; after Start, with the
  microphone granted, the two images and the error message are still in the state
  while the transcript and the narrative are empty.
\<close>

theorem startListening_keeps_previous_gallery:
  "map image_path (images (fst (startListening (Started False) scenario_A_broken_state))) =
     [''IMG1.jpg'', ''images/IMG1.jpg''] \<and>
   imageLoadError (fst (startListening (Started False) scenario_A_broken_state)) =
     Some ''Failed to load image: /images/IMG1.jpg'' \<and>
   isListening (fst (startListening (Started False) scenario_A_broken_state)) \<and>
   transcript (fst (startListening (Started False) scenario_A_broken_state)) = [] \<and>
   response (fst (startListening (Started False) scenario_A_broken_state)) = []"
  by (simp add: scenario_A_broken_state_def scenario_A_state_eq handleImageError_def
      getImagePath_def startListening_def Let_def example_image_def)

text \<open>
  C4, as the code has it. When \<^verbatim>\<open>getUserMedia\<close> rejects, Start has already emptied the
  chunk buffer, the transcript and the narrative and cleared \<^verbatim>\<open>isProcessing\<close>; nothing
  else changes (no recorder is stored, \<^verbatim>\<open>isListening\<close> keeps its value, images, cursor
  and image error stay); one error toast is shown and no remote call is made.
\<close>

theorem startListening_microphone_refused:
  "startListening GetUserMediaRejects s =
     (s\<lparr>chunksRef := [], transcript := [], response := [], isProcessing := False\<rparr>,
      [GetUserMedia, start_error_toast]) \<and>
   isListening (fst (startListening GetUserMediaRejects s)) = isListening s \<and>
   mediaRecorderRef (fst (startListening GetUserMediaRejects s)) = mediaRecorderRef s \<and>
   images (fst (startListening GetUserMediaRejects s)) = images s \<and>
   currentImageIndex (fst (startListening GetUserMediaRejects s)) = currentImageIndex s \<and>
   imageLoadError (fst (startListening GetUserMediaRejects s)) = imageLoadError s \<and>
   map status (toasts_of (snd (startListening GetUserMediaRejects s))) = [StatusError] \<and>
   \<not> list_ex is_network_call (snd (startListening GetUserMediaRejects s))"
  by (simp add: startListening_def Let_def start_error_toast_def)

theorem startListening_microphone_refused_witness:
  "transcript (fst (startListening GetUserMediaRejects scenario_A_state)) = [] \<and>
   response (fst (startListening GetUserMediaRejects scenario_A_state)) = [] \<and>
   images (fst (startListening GetUserMediaRejects scenario_A_state)) =
     [example_image 1 ''IMG1.jpg'', example_image 2 ''images/IMG1.jpg''] \<and>
   snd (startListening GetUserMediaRejects scenario_A_state) = [GetUserMedia, start_error_toast]"
  using startListening_microphone_refused [of scenario_A_state]
  by (simp add: scenario_A_state_eq)

text \<open>
  C4 as stated fails: after the session of scenario A, a Start that is refused the
  microphone does not leave the state unchanged; the transcript and the narrative of
  that session are gone.
\<close>

theorem startListening_state_unchanged_counterexample:
  "fst (startListening GetUserMediaRejects scenario_A_state) \<noteq> scenario_A_state \<and>
   transcript scenario_A_state = ''beach photos from July'' \<and>
   transcript (fst (startListening GetUserMediaRejects scenario_A_state)) = [] \<and>
   response scenario_A_state = ''Here are your beach memories'' \<and>
   response (fst (startListening GetUserMediaRejects scenario_A_state)) = []"
  by (simp add: scenario_A_state_eq startListening_def Let_def)


text \<open>
  C5. When the body of the query response has no \<open>story_description\<close> or an empty
  one, or its \<open>image_metadata\<close> is not an array, the narrative, the image list, the
  cursor and the image error are what they were before Stop was pressed, and nothing is
  played; when the session reached the query and the status is in 200-299, the one toast
  is an error whose text names the invalid field. A body with a narrative and an empty
  array is accepted: the narrative is stored and the image list becomes empty.
\<close>

theorem invalid_response_rejected:
  assumes "query env = HttpResponse st (Json data)"
  shows "(invalid_response data \<longrightarrow>
      response (fst (stopListening env s)) = response s \<and>
      images (fst (stopListening env s)) = images s \<and>
      currentImageIndex (fst (stopListening env s)) = currentImageIndex s \<and>
      imageLoadError (fst (stopListening env s)) = imageLoadError s \<and>
      \<not> list_ex is_playback (snd (stopListening env s)) \<and>
      (recording s \<and> audio_captured s \<and> \<not> transcription_fails env \<and> response_ok st \<longrightarrow>
         map status (toasts_of (snd (stopListening env s))) = [StatusError] \<and>
         map description (toasts_of (snd (stopListening env s))) =
           [if story_description data = None \<or> story_description data = Some []
            then ''No story description found in response''
            else ''Invalid image metadata format in response''])) \<and>
    (recording s \<and> audio_captured s \<and> \<not> transcription_fails env \<and> response_ok st \<and>
     story_description data = Some story \<and> story \<noteq> [] \<and> image_metadata data = Some [] \<longrightarrow>
       response (fst (stopListening env s)) = story \<and>
       images (fst (stopListening env s)) = [] \<and>
       currentImageIndex (fst (stopListening env s)) = 0)"
proof (intro conjI impI)
  assume inv: "invalid_response data"
  with assms have qf: "query_fails env" by (simp add: query_fails_def)
  then have fail: "\<not> recording s \<or> \<not> audio_captured s \<or> transcription_fails env \<or> query_fails env"
    by simp
  from stopListening_failure [OF fail]
  have sd: "same_display s (fst (stopListening env s))"
    and np: "\<not> list_ex is_playback (snd (stopListening env s))"
    by simp_all
  from sd show "response (fst (stopListening env s)) = response s"
    and "images (fst (stopListening env s)) = images s"
    and "currentImageIndex (fst (stopListening env s)) = currentImageIndex s"
    and "imageLoadError (fst (stopListening env s)) = imageLoadError s"
    by (simp_all add: same_display_def)
  from np show "\<not> list_ex is_playback (snd (stopListening env s))" .
  assume reached: "recording s \<and> audio_captured s \<and> \<not> transcription_fails env \<and> response_ok st"
  then obtain recorder where r: "mediaRecorderRef s = Some recorder" "isListening s"
    by (auto elim: recordingE)
  from reached obtain t where t: "transcription env = TranscriptionResult (Some t)" "t \<noteq> []"
    by (auto elim: not_transcription_fails_cases)
  from reached have aud: "audio_captured s" and ok: "response_ok st" by simp_all
  have msg: "query_error_message env =
      (if story_description data = None \<or> story_description data = Some []
       then ''No story description found in response''
       else ''Invalid image metadata format in response'')"
    using assms ok by (cases "story_description data") (simp_all add: query_error_message_def)
  have evs: "snd (stopListening env s) =
      [RecorderStop, TracksStop, TranscriptionsCreate (recorded_blob recorder (chunksRef s)),
       Fetch t, api_error_toast (query_error_message env), TracksStop]"
    by (simp add: stopListening_query_fails [OF r aud t qf])
  show "map status (toasts_of (snd (stopListening env s))) = [StatusError]"
    by (simp add: evs api_error_toast_def)
  show "map description (toasts_of (snd (stopListening env s))) =
           [if story_description data = None \<or> story_description data = Some []
            then ''No story description found in response''
            else ''Invalid image metadata format in response'']"
    unfolding evs msg [symmetric] by (simp add: api_error_toast_def)
next
  assume a: "recording s \<and> audio_captured s \<and> \<not> transcription_fails env \<and> response_ok st \<and>
     story_description data = Some story \<and> story \<noteq> [] \<and> image_metadata data = Some []"
  then obtain recorder where r: "mediaRecorderRef s = Some recorder" "isListening s"
    by (auto elim: recordingE)
  from a obtain t where t: "transcription env = TranscriptionResult (Some t)" "t \<noteq> []"
    by (auto elim: not_transcription_fails_cases)
  from a have aud: "audio_captured s" and ok: "response_ok st"
    and st: "story_description data = Some story" "story \<noteq> []"
    and im: "image_metadata data = Some []"
    by simp_all
  note eq = stopListening_valid [OF r aud t assms ok st im]
  show "response (fst (stopListening env s)) = story"
    and "images (fst (stopListening env s)) = []"
    and "currentImageIndex (fst (stopListening env s)) = 0"
    by (simp_all add: eq)
qed

theorem invalid_response_rejected_witness:
  "invalid_response
     \<lparr>story_description = Some ''Here are your beach memories'', image_metadata = None\<rparr> \<and>
   response (fst (stopListening missing_images_env listening_state)) =
     response listening_state \<and>
   images (fst (stopListening missing_images_env listening_state)) =
     images listening_state \<and>
   map description (toasts_of (snd (stopListening missing_images_env listening_state))) =
     [''Invalid image metadata format in response'']"
proof -
  have q: "query missing_images_env = HttpResponse 200
      (Json \<lparr>story_description = Some ''Here are your beach memories'', image_metadata = None\<rparr>)"
    by (simp add: missing_images_env_def)
  have inv: "invalid_response
     \<lparr>story_description = Some ''Here are your beach memories'', image_metadata = None\<rparr>"
    by (simp add: invalid_response_def)
  have tr: "\<not> transcription_fails missing_images_env"
    by (simp add: transcription_fails_def missing_images_env_def scenario_A_env_def)
  have ok: "response_ok 200"
    by (simp add: response_ok_def)
  from invalid_response_rejected [OF q, of listening_state] inv tr ok
  show ?thesis
    by (simp add: listening_state_live)
qed

text \<open>
  C6. When a stage fails, the later stages do not run. If no audio was captured, no
  remote call is made. If the transcription fails (the call rejects, or its text is
  missing or empty), the query is not sent. If the transcription or the query fails
  (no response, a status outside 200-299, a body that is not JSON or is invalid),
  nothing is played and narrative, images, cursor and image error stay as they were.
\<close>

theorem failed_stage_stops_the_pipeline:
  "(recording s \<and> \<not> audio_captured s \<longrightarrow>
      \<not> list_ex is_network_call (snd (stopListening env s)) \<and>
      same_display s (fst (stopListening env s))) \<and>
   (transcription_fails env \<longrightarrow>
      \<not> list_ex is_query_call (snd (stopListening env s)) \<and>
      \<not> list_ex is_playback (snd (stopListening env s)) \<and>
      same_display s (fst (stopListening env s))) \<and>
   (query_fails env \<longrightarrow>
      \<not> list_ex is_playback (snd (stopListening env s)) \<and>
      same_display s (fst (stopListening env s)))"
proof (intro conjI impI)
  assume a: "recording s \<and> \<not> audio_captured s"
  then have "\<not> recording s \<or> \<not> audio_captured s \<or> transcription_fails env \<or> query_fails env"
    by simp
  from stopListening_failure [OF this] a
  show "\<not> list_ex is_network_call (snd (stopListening env s))"
    and "same_display s (fst (stopListening env s))"
    by simp_all
next
  assume a: "transcription_fails env"
  then have "\<not> recording s \<or> \<not> audio_captured s \<or> transcription_fails env \<or> query_fails env"
    by simp
  from stopListening_failure [OF this] a
  show "\<not> list_ex is_query_call (snd (stopListening env s))"
    and "\<not> list_ex is_playback (snd (stopListening env s))"
    and "same_display s (fst (stopListening env s))"
    by simp_all
next
  assume a: "query_fails env"
  then have "\<not> recording s \<or> \<not> audio_captured s \<or> transcription_fails env \<or> query_fails env"
    by simp
  from stopListening_failure [OF this]
  show "\<not> list_ex is_playback (snd (stopListening env s))"
    and "same_display s (fst (stopListening env s))"
    by simp_all
qed

text \<open>
  An empty transcription text: the recording is sent to the transcription service and
  nothing after it. Scenario C, status 500: the query is sent, its toast shows the
  status, nothing is played.
\<close>

theorem failed_stage_stops_the_pipeline_witness:
  "transcription_fails empty_transcript_env \<and>
   snd (stopListening empty_transcript_env listening_state) =
     [RecorderStop, TracksStop,
      TranscriptionsCreate \<lparr>blob_bytes = [26, 69, 223, 163],
                            blob_type = ''audio/webm;codecs=opus''\<rparr>,
      audio_error_toast ''No transcription received'', TracksStop] \<and>
   \<not> list_ex is_query_call (snd (stopListening empty_transcript_env listening_state)) \<and>
   query_fails scenario_C_env \<and>
   snd (stopListening scenario_C_env listening_state) =
     [RecorderStop, TracksStop,
      TranscriptionsCreate \<lparr>blob_bytes = [26, 69, 223, 163],
                            blob_type = ''audio/webm;codecs=opus''\<rparr>,
      Fetch ''beach photos from July'',
      api_error_toast ''HTTP error! status: 500'', TracksStop] \<and>
   \<not> list_ex is_playback (snd (stopListening scenario_C_env listening_state)) \<and>
   same_display listening_state (fst (stopListening scenario_C_env listening_state))"
proof -
  have tf: "transcription_fails empty_transcript_env"
    by (simp add: transcription_fails_def empty_transcript_env_def)
  have qf: "query_fails scenario_C_env"
    by (simp add: query_fails_def scenario_C_env_def response_ok_def)
  have msg: "query_error_message scenario_C_env = ''HTTP error! status: 500''"
    by (simp add: query_error_message_def scenario_C_env_def response_ok_def
        string_of_nat.simps)
  have tr: "transcription scenario_C_env = TranscriptionResult (Some ''beach photos from July'')"
    by (simp add: scenario_C_env_def scenario_A_env_def)
  have ne: "''beach photos from July'' \<noteq> []"
    by simp
  have e1: "snd (stopListening empty_transcript_env listening_state) =
     [RecorderStop, TracksStop,
      TranscriptionsCreate \<lparr>blob_bytes = [26, 69, 223, 163],
                            blob_type = ''audio/webm;codecs=opus''\<rparr>,
      audio_error_toast ''No transcription received'', TracksStop]"
    unfolding stopListening_transcription_fails [OF listening_state_live(1,2,4) tf]
    by (simp add: transcription_error_message_def empty_transcript_env_def recorded_blob_def
        listening_state_chunks one_chunk_def)
  have e2: "snd (stopListening scenario_C_env listening_state) =
     [RecorderStop, TracksStop,
      TranscriptionsCreate \<lparr>blob_bytes = [26, 69, 223, 163],
                            blob_type = ''audio/webm;codecs=opus''\<rparr>,
      Fetch ''beach photos from July'',
      api_error_toast ''HTTP error! status: 500'', TracksStop]"
    unfolding stopListening_query_fails [OF listening_state_live(1,2,4) tr ne qf] msg
    by (simp add: recorded_blob_def listening_state_chunks one_chunk_def)
  from failed_stage_stops_the_pipeline [of listening_state empty_transcript_env]
    failed_stage_stops_the_pipeline [of listening_state scenario_C_env]
    tf qf e1 e2
  show ?thesis by simp
qed

text \<open>
  C9. The session reached the gallery update (audio captured, a transcript, a valid
  answer) and the spoken reply fails, in the TTS call or in playing its audio. Then the
  narrative and the images of the answer are in the state, the cursor is 0, the session
  is neither listening nor processing; the one toast of the session is a warning; and
  the local synthesiser is given the narrative, once, exactly when it exists.
\<close>

theorem speech_failure_falls_back:
  assumes "recording s" and "audio_captured s"
    and "transcription env = TranscriptionResult (Some t)" and "t \<noteq> []"
    and "query env = HttpResponse st (Json data)" and "response_ok st"
    and "story_description data = Some story" and "story \<noteq> []"
    and "image_metadata data = Some imgs"
    and "speech env \<noteq> Played"
  shows "response (fst (stopListening env s)) = story \<and>
    images (fst (stopListening env s)) = imgs \<and>
    currentImageIndex (fst (stopListening env s)) = 0 \<and>
    imageLoadError (fst (stopListening env s)) = None \<and>
    transcript (fst (stopListening env s)) = t \<and>
    \<not> isListening (fst (stopListening env s)) \<and>
    \<not> isProcessing (fst (stopListening env s)) \<and>
    map status (toasts_of (snd (stopListening env s))) = [StatusWarning] \<and>
    spoken_locally (snd (stopListening env s)) =
      (if speechSynthesisAvailable env then [story] else [])"
proof -
  from assms(1) obtain recorder where r: "mediaRecorderRef s = Some recorder" "isListening s"
    by (rule recordingE)
  note eq = stopListening_valid [OF r assms(2-9)]
  from assms(10) have "speech env = SpeechCreateRejects \<or> speech env = PlayRejects"
    by (cases "speech env") simp_all
  then have sp: "map status (toasts_of
        (speakResponse (speech env) (speechSynthesisAvailable env) story)) = [StatusWarning] \<and>
      spoken_locally (speakResponse (speech env) (speechSynthesisAvailable env) story) =
        (if speechSynthesisAvailable env then [story] else [])"
    by (auto simp: speakResponse_def speech_fallback_def)
  have t_app: "\<And>xs ys. toasts_of (xs @ ys) = toasts_of xs @ toasts_of ys"
  proof -
    fix xs ys :: "event list"
    show "toasts_of (xs @ ys) = toasts_of xs @ toasts_of ys"
      by (induction xs) (simp_all split: event.splits)
  qed
  have s_app: "\<And>xs ys. spoken_locally (xs @ ys) = spoken_locally xs @ spoken_locally ys"
  proof -
    fix xs ys :: "event list"
    show "spoken_locally (xs @ ys) = spoken_locally xs @ spoken_locally ys"
      by (induction xs) (simp_all split: event.splits)
  qed
  from sp show ?thesis
    by (simp add: eq t_app s_app)
qed

text \<open>Scenario D: the synthesis call throws and the browser has a synthesiser.\<close>

theorem speech_failure_falls_back_witness:
  "response (fst (stopListening scenario_D_env listening_state)) =
     ''Here are your beach memories'' \<and>
   length (images (fst (stopListening scenario_D_env listening_state))) = 2 \<and>
   map status (toasts_of (snd (stopListening scenario_D_env listening_state))) =
     [StatusWarning] \<and>
   spoken_locally (snd (stopListening scenario_D_env listening_state)) =
     [''Here are your beach memories'']"
  using speech_failure_falls_back [of listening_state scenario_D_env
      "''beach photos from July''" 200 scenario_A_response
      "''Here are your beach memories''"
      "[example_image 1 ''IMG1.jpg'', example_image 2 ''images/IMG1.jpg'']"]
  by (simp add: listening_state_live scenario_D_env_def scenario_A_env_def
      scenario_A_response_def response_ok_def)


section \<open>Claims about the cursor\<close>

lemma js_rem_nonneg:
  assumes "0 \<le> a" and "0 < b"
  shows "js_rem a b = Some (a mod b)"
proof (cases "a = 0")
  case True
  with assms show ?thesis by (simp add: js_rem_def)
next
  case False
  with assms have "0 < a" by simp
  with assms show ?thesis by (simp add: js_rem_def)
qed

lemma nextButton_click_eq:
  assumes "1 < length (uniqueImages (images s))" and "0 \<le> currentImageIndex s"
  shows "nextButton_click s =
     s\<lparr>currentImageIndex :=
         (currentImageIndex s + 1) mod int (length (uniqueImages (images s)))\<rparr>"
proof -
  have "js_rem (currentImageIndex s + 1) (int (length (uniqueImages (images s)))) =
      Some ((currentImageIndex s + 1) mod int (length (uniqueImages (images s))))"
    using assms by (intro js_rem_nonneg) auto
  moreover from assms(1) have "uniqueImages (images s) \<noteq> []" by auto
  ultimately show ?thesis
    using assms(1) by (simp add: nextButton_click_def nextButton_update_def Let_def)
qed

lemma prevButton_click_eq:
  assumes "1 < length (uniqueImages (images s))" and "0 \<le> currentImageIndex s"
  shows "prevButton_click s =
     s\<lparr>currentImageIndex :=
         (currentImageIndex s - 1) mod int (length (uniqueImages (images s)))\<rparr>"
proof -
  have "js_rem (currentImageIndex s - 1 + int (length (uniqueImages (images s))))
        (int (length (uniqueImages (images s)))) =
      Some ((currentImageIndex s - 1 + int (length (uniqueImages (images s))))
        mod int (length (uniqueImages (images s))))"
    using assms by (intro js_rem_nonneg) auto
  moreover from assms(1) have "uniqueImages (images s) \<noteq> []" by auto
  ultimately show ?thesis
    using assms(1) by (simp add: prevButton_click_def prevButton_update_def Let_def)
qed

lemma button_click_disabled:
  assumes "length (uniqueImages (images s)) \<le> 1"
  shows "nextButton_click s = s" and "prevButton_click s = s"
  using assms by (simp_all add: nextButton_click_def prevButton_click_def Let_def)

lemma nextButton_click_funpow:
  assumes "1 < length (uniqueImages (images s))" and "0 \<le> currentImageIndex s"
  shows "(nextButton_click ^^ Suc k) s =
     s\<lparr>currentImageIndex :=
         (currentImageIndex s + 1 + int k) mod int (length (uniqueImages (images s)))\<rparr>"
proof (induction k)
  case 0
  from assms show ?case by (simp add: nextButton_click_eq)
next
  case (Suc k)
  let ?n = "int (length (uniqueImages (images s)))"
  let ?s' = "s\<lparr>currentImageIndex := (currentImageIndex s + 1 + int k) mod ?n\<rparr>"
  from assms(1) have pos: "0 < ?n" by auto
  have "(nextButton_click ^^ Suc (Suc k)) s = nextButton_click ?s'"
    using Suc.IH by simp
  also have "\<dots> = ?s'\<lparr>currentImageIndex := (currentImageIndex ?s' + 1) mod ?n\<rparr>"
    using assms(1) pos nextButton_click_eq [of ?s'] by simp
  also have "\<dots> = s\<lparr>currentImageIndex := (currentImageIndex s + 1 + int (Suc k)) mod ?n\<rparr>"
    by (simp add: mod_simps algebra_simps)
  finally show ?case .
qed

lemma prevButton_click_funpow:
  assumes "1 < length (uniqueImages (images s))" and "0 \<le> currentImageIndex s"
  shows "(prevButton_click ^^ Suc k) s =
     s\<lparr>currentImageIndex :=
         (currentImageIndex s - 1 - int k) mod int (length (uniqueImages (images s)))\<rparr>"
proof (induction k)
  case 0
  from assms show ?case by (simp add: prevButton_click_eq)
next
  case (Suc k)
  let ?n = "int (length (uniqueImages (images s)))"
  let ?s' = "s\<lparr>currentImageIndex := (currentImageIndex s - 1 - int k) mod ?n\<rparr>"
  from assms(1) have pos: "0 < ?n" by auto
  have "(prevButton_click ^^ Suc (Suc k)) s = prevButton_click ?s'"
    using Suc.IH by simp
  also have "\<dots> = ?s'\<lparr>currentImageIndex := (currentImageIndex ?s' - 1) mod ?n\<rparr>"
    using assms(1) pos prevButton_click_eq [of ?s'] by simp
  also have "\<dots> = s\<lparr>currentImageIndex := (currentImageIndex s - 1 - int (Suc k)) mod ?n\<rparr>"
    by (simp add: mod_simps algebra_simps)
  finally show ?case .
qed

text \<open>
  C7. Let N be the length of the deduplicated list. When N > 1 and the cursor is in
  [0, N), a click on the next button moves it to (i + 1) mod N and a click on the
  previous button to (i - 1) mod N, both in [0, N), and changes nothing else; N clicks
  on next give the state before the clicks, and so do N clicks on previous. When
  N \<le> 1 a click on either button changes nothing.
\<close>

theorem carousel_buttons_wrap_around:
  assumes "N = length (uniqueImages (images s))"
  shows "(1 < N \<and> 0 \<le> currentImageIndex s \<and> currentImageIndex s < int N \<longrightarrow>
      nextButton_click s = s\<lparr>currentImageIndex := (currentImageIndex s + 1) mod int N\<rparr> \<and>
      prevButton_click s = s\<lparr>currentImageIndex := (currentImageIndex s - 1) mod int N\<rparr> \<and>
      0 \<le> currentImageIndex (nextButton_click s) \<and>
      currentImageIndex (nextButton_click s) < int N \<and>
      0 \<le> currentImageIndex (prevButton_click s) \<and>
      currentImageIndex (prevButton_click s) < int N \<and>
      (nextButton_click ^^ N) s = s \<and>
      (prevButton_click ^^ N) s = s) \<and>
    (N \<le> 1 \<longrightarrow> nextButton_click s = s \<and> prevButton_click s = s)"
proof (intro conjI impI)
  assume a: "1 < N \<and> 0 \<le> currentImageIndex s \<and> currentImageIndex s < int N"
  with assms have n: "1 < length (uniqueImages (images s))" and lo: "0 \<le> currentImageIndex s"
    and hi: "currentImageIndex s < int N"
    by simp_all
  from a have pos: "0 < int N" by simp
  show nx: "nextButton_click s = s\<lparr>currentImageIndex := (currentImageIndex s + 1) mod int N\<rparr>"
    unfolding assms by (rule nextButton_click_eq [OF n lo])
  show pv: "prevButton_click s = s\<lparr>currentImageIndex := (currentImageIndex s - 1) mod int N\<rparr>"
    unfolding assms by (rule prevButton_click_eq [OF n lo])
  from pos show "0 \<le> currentImageIndex (nextButton_click s)"
    and "currentImageIndex (nextButton_click s) < int N"
    and "0 \<le> currentImageIndex (prevButton_click s)"
    and "currentImageIndex (prevButton_click s) < int N"
    by (simp_all add: nx pv)
  from a obtain k where k: "N = Suc k" by (cases N) simp_all
  have "currentImageIndex s + 1 + int k = currentImageIndex s + int N"
    using k by simp
  then have "(currentImageIndex s + 1 + int k) mod int N =
      (currentImageIndex s + int N) mod int N"
    by (simp only:)
  also have "\<dots> = currentImageIndex s mod int N"
    by (rule mod_add_self2)
  also have "\<dots> = currentImageIndex s"
    using lo hi by simp
  finally have "(currentImageIndex s + 1 + int k) mod int N = currentImageIndex s" .
  with nextButton_click_funpow [OF n lo, of k] k assms
  show "(nextButton_click ^^ N) s = s" by simp
  have "currentImageIndex s - 1 - int k = currentImageIndex s - int N"
    using k by simp
  then have "(currentImageIndex s - 1 - int k) mod int N =
      (currentImageIndex s - int N) mod int N"
    by (simp only:)
  also have "\<dots> = currentImageIndex s mod int N"
    by (rule minus_mod_self2)
  also have "\<dots> = currentImageIndex s"
    using lo hi by simp
  finally have "(currentImageIndex s - 1 - int k) mod int N = currentImageIndex s" .
  with prevButton_click_funpow [OF n lo, of k] k assms
  show "(prevButton_click ^^ N) s = s" by simp
next
  assume "N \<le> 1"
  with assms show "nextButton_click s = s" and "prevButton_click s = s"
    by (simp_all add: button_click_disabled)
qed

text \<open>
  Three images, two with the same path, so N = 2, and the cursor on 1: next wraps to
  0, previous goes to 0, two clicks on next come back to 1.
\<close>

theorem carousel_buttons_wrap_around_witness:
  "length (uniqueImages (images duplicate_state)) = 2 \<and>
   currentImageIndex duplicate_state = 1 \<and>
   currentImageIndex (nextButton_click duplicate_state) = 0 \<and>
   currentImageIndex (prevButton_click duplicate_state) = 0 \<and>
   (nextButton_click ^^ 2) duplicate_state = duplicate_state"
proof -
  have n: "2 = length (uniqueImages (images duplicate_state))"
    by (simp add: duplicate_state_def uniqueImages_def example_image_def)
  have i: "currentImageIndex duplicate_state = 1"
    by (simp add: duplicate_state_def)
  then have h: "1 < (2::nat) \<and> 0 \<le> currentImageIndex duplicate_state \<and>
      currentImageIndex duplicate_state < int 2"
    by simp
  from carousel_buttons_wrap_around [OF n] h
  have nx: "nextButton_click duplicate_state =
      duplicate_state\<lparr>currentImageIndex := (currentImageIndex duplicate_state + 1) mod int 2\<rparr>"
    and pv: "prevButton_click duplicate_state =
      duplicate_state\<lparr>currentImageIndex := (currentImageIndex duplicate_state - 1) mod int 2\<rparr>"
    and cyc: "(nextButton_click ^^ 2) duplicate_state = duplicate_state"
    by blast+
  have "currentImageIndex (nextButton_click duplicate_state) = 0"
    unfolding nx by (simp add: i)
  moreover have "currentImageIndex (prevButton_click duplicate_state) = 0"
    unfolding pv by (simp add: i)
  ultimately show ?thesis
    using n i cyc by simp
qed

text \<open>
  The unused functions \<^verbatim>\<open>nextImage\<close> and \<^verbatim>\<open>prevImage\<close> take the remainder by the
  count with duplicates: on the same state \<^verbatim>\<open>nextImage\<close> gives 2, which is no index of
  the deduplicated list, and on a state without images it gives \<^verbatim>\<open>NaN\<close>.
\<close>

lemma nextImage_counts_duplicates:
  "nextImage duplicate_state = Some 2 \<and> nextImage initialState = None \<and>
   prevImage initialState = None"
  by (simp add: nextImage_def prevImage_def js_rem_def duplicate_state_def initialState_def)

text \<open>
  C8. The cursor is inside the deduplicated list whenever that list is not empty: this
  holds on a fresh page and is kept by Start, by Stop with any answers of the outside
  world, by both buttons, by an image error and by an audio chunk. Whenever a query
  answer is accepted, the cursor is 0 afterwards.
\<close>

theorem gallery_invariant_preserved:
  "gallery_invariant initialState \<and>
   (gallery_invariant s \<longrightarrow>
      gallery_invariant (fst (startListening outcome s)) \<and>
      gallery_invariant (fst (stopListening env s)) \<and>
      gallery_invariant (nextButton_click s) \<and>
      gallery_invariant (prevButton_click s) \<and>
      gallery_invariant (fst (handleImageError path s)) \<and>
      gallery_invariant (ondataavailable chunk s)) \<and>
   (recording s \<and> audio_captured s \<and> \<not> transcription_fails env \<and> \<not> query_fails env \<longrightarrow>
      currentImageIndex (fst (stopListening env s)) = 0 \<and>
      gallery_invariant (fst (stopListening env s)))"
proof -
  have accepted: "currentImageIndex (fst (stopListening env s)) = 0 \<and>
      gallery_invariant (fst (stopListening env s))"
    if "recording s" "audio_captured s" "\<not> transcription_fails env" "\<not> query_fails env"
  proof -
    from that(1) obtain recorder where r: "mediaRecorderRef s = Some recorder" "isListening s"
      by (rule recordingE)
    from that(3) obtain t where t: "transcription env = TranscriptionResult (Some t)" "t \<noteq> []"
      by (rule not_transcription_fails_cases)
    from that(4) obtain st data story imgs where
      q: "query env = HttpResponse st (Json data)" "response_ok st"
        "story_description data = Some story" "story \<noteq> []" "image_metadata data = Some imgs"
      by (rule not_query_fails_cases)
    show ?thesis
      unfolding stopListening_valid [OF r that(2) t q]
      by (simp add: gallery_invariant_def)
  qed
  have init: "gallery_invariant initialState"
    by (simp add: gallery_invariant_def initialState_def uniqueImages_def)
  have step: "gallery_invariant (fst (startListening outcome s)) \<and>
      gallery_invariant (fst (stopListening env s)) \<and>
      gallery_invariant (nextButton_click s) \<and>
      gallery_invariant (prevButton_click s) \<and>
      gallery_invariant (fst (handleImageError path s)) \<and>
      gallery_invariant (ondataavailable chunk s)"
    if inv: "gallery_invariant s"
  proof (intro conjI)
    from inv show "gallery_invariant (fst (startListening outcome s))"
      by (simp add: gallery_invariant_def startListening_display)
    show "gallery_invariant (fst (stopListening env s))"
    proof (cases "recording s \<and> audio_captured s \<and> \<not> transcription_fails env \<and> \<not> query_fails env")
      case True
      with accepted show ?thesis by simp
    next
      case False
      then have "\<not> recording s \<or> \<not> audio_captured s \<or> transcription_fails env \<or> query_fails env"
        by blast
      from stopListening_failure [OF this] inv show ?thesis
        by (simp add: gallery_invariant_def same_display_def)
    qed
    from inv show "gallery_invariant (fst (handleImageError path s))"
      by (simp add: gallery_invariant_def handleImageError_def Let_def)
    from inv show "gallery_invariant (ondataavailable chunk s)"
      by (simp add: gallery_invariant_def ondataavailable_def)
    show "gallery_invariant (nextButton_click s)"
    proof (cases "1 < length (uniqueImages (images s))")
      case False
      with inv show ?thesis by (simp add: button_click_disabled)
    next
      case True
      with inv have "0 \<le> currentImageIndex s" by (auto simp: gallery_invariant_def)
      moreover note True
      moreover from True have "0 < int (length (uniqueImages (images s)))" by auto
      ultimately show ?thesis
        by (simp add: gallery_invariant_def nextButton_click_eq)
    qed
    show "gallery_invariant (prevButton_click s)"
    proof (cases "1 < length (uniqueImages (images s))")
      case False
      with inv show ?thesis by (simp add: button_click_disabled)
    next
      case True
      with inv have "0 \<le> currentImageIndex s" by (auto simp: gallery_invariant_def)
      moreover note True
      moreover from True have "0 < int (length (uniqueImages (images s)))" by auto
      ultimately show ?thesis
        by (simp add: gallery_invariant_def prevButton_click_eq)
    qed
  qed
  from init step accepted show ?thesis by blast
qed

text \<open>
  The state with duplicates satisfies the invariant, and so does what each button makes
  of it; pressing Stop in scenario A puts the cursor on 0.
\<close>

theorem gallery_invariant_preserved_witness:
  "gallery_invariant duplicate_state \<and>
   gallery_invariant (nextButton_click duplicate_state) \<and>
   gallery_invariant (prevButton_click duplicate_state) \<and>
   gallery_invariant (fst (stopListening scenario_A_env duplicate_state)) \<and>
   currentImageIndex (fst (stopListening scenario_A_env listening_state)) = 0 \<and>
   gallery_invariant (fst (stopListening scenario_A_env listening_state))"
proof -
  have d: "gallery_invariant duplicate_state"
    by (simp add: gallery_invariant_def duplicate_state_def uniqueImages_def example_image_def)
  have tr: "\<not> transcription_fails scenario_A_env"
    by (simp add: transcription_fails_def scenario_A_env_def)
  have q: "\<not> query_fails scenario_A_env"
    by (simp add: query_fails_def scenario_A_env_def scenario_A_response_def response_ok_def
        invalid_response_def)
  from gallery_invariant_preserved [of duplicate_state GetUserMediaRejects scenario_A_env
      "[]" one_chunk]
    gallery_invariant_preserved [of listening_state GetUserMediaRejects scenario_A_env
      "[]" one_chunk]
    d tr q listening_state_live
  show ?thesis by simp
qed

end
